theory Spec2Isabelle
  imports Main "HOL-Library.Sublist" "HOL-Library.Multiset"
begin

section \<open>Named-argument conversion of \<open>discord_argparse\<close>\<close>

text \<open>
  A shallow embedding of \<^verbatim>\<open>src/discord_argparse.py\<close>. A Python string is a
  \<open>string\<close>, the list of its code points; a \<open>char\<close> is a code point below 256, so
  the strings of the model are those of the Latin-1 range, and on them the library
  operations below compute what Python computes. Exceptions are
  values: every function that can raise returns \<open>exn + 'a\<close>, with \<open>Inl\<close> the exception.
  A Python \<open>dict\<close> is an association list with distinct keys in insertion order; two
  dicts are equal in Python when they hold the same items, which is \<open>map_of\<close> equality.
  Converters are user code: they are modelled as functions of the context and the raw
  value, so a converter has no state of its own and returns the same outcome for the
  same input.
\<close>

subsection \<open>Values and exceptions\<close>

datatype pyval = PyNone | PyBool bool | PyInt int | PyStr string

text \<open>
  The first argument of \<open>commands.ConversionError\<close> is the converter that failed: the
  raw value in \<open>_convert_to_bool\<close>, the converter object in \<open>_convert_value\<close>, and
  the \<open>ArgumentConverter\<close> itself in \<open>convert\<close>. The string of a library exception
  is the fixed part of its message.
\<close>

datatype subject = SubjectValue string | SubjectConverter | SubjectSelf

datatype exn =
    NameError string
  | AttributeError string
  | ValueError string
  | TypeError string
  | IndexError string
  | ConversionError subject "exn option"
  | InvalidArgumentValueError string string
  | UnknownArgumentError string
  | MissingRequiredArgument string

subsection \<open>String operations of the Python library\<close>

text \<open>
  \<open>str.lower\<close>. Below 256 the cased letters with a lower-case form of their own are
  \<open>A\<close> to \<open>Z\<close> and \<open>0xC0\<close> to \<open>0xDE\<close> without the multiplication sign
  \<open>0xD7\<close>; each maps to the code point 32 above it, and every other character is
  left as it is. No rule of \<open>str.lower\<close> that looks at the neighbours of a character
  applies in this range.
\<close>

definition uppercase :: "char list" where
  "uppercase = ''ABCDEFGHIJKLMNOPQRSTUVWXYZ'' @
     [CHR 0xC0, CHR 0xC1, CHR 0xC2, CHR 0xC3, CHR 0xC4, CHR 0xC5, CHR 0xC6, CHR 0xC7,
      CHR 0xC8, CHR 0xC9, CHR 0xCA, CHR 0xCB, CHR 0xCC, CHR 0xCD, CHR 0xCE, CHR 0xCF,
      CHR 0xD0, CHR 0xD1, CHR 0xD2, CHR 0xD3, CHR 0xD4, CHR 0xD5, CHR 0xD6, CHR 0xD8,
      CHR 0xD9, CHR 0xDA, CHR 0xDB, CHR 0xDC, CHR 0xDD, CHR 0xDE]"

definition lowercase :: "char list" where
  "lowercase = ''abcdefghijklmnopqrstuvwxyz'' @
     [CHR 0xE0, CHR 0xE1, CHR 0xE2, CHR 0xE3, CHR 0xE4, CHR 0xE5, CHR 0xE6, CHR 0xE7,
      CHR 0xE8, CHR 0xE9, CHR 0xEA, CHR 0xEB, CHR 0xEC, CHR 0xED, CHR 0xEE, CHR 0xEF,
      CHR 0xF0, CHR 0xF1, CHR 0xF2, CHR 0xF3, CHR 0xF4, CHR 0xF5, CHR 0xF6, CHR 0xF8,
      CHR 0xF9, CHR 0xFA, CHR 0xFB, CHR 0xFC, CHR 0xFD, CHR 0xFE]"

definition lower_char :: "char \<Rightarrow> char" where
  "lower_char c =
     (case map_of (zip uppercase lowercase) c of
        Some d \<Rightarrow> d
      | None \<Rightarrow> c)"

definition lower :: "string \<Rightarrow> string" where
  "lower s = map lower_char s"

text \<open>
  \<open>s.split(sep)\<close> for a one-character separator: the pieces between the separators,
  always at least one piece. The second argument is the piece being read.
\<close>

fun split_from :: "char \<Rightarrow> string \<Rightarrow> string \<Rightarrow> string list" where
  "split_from sep cur [] = [cur]"
| "split_from sep cur (c # cs) =
     (if c = sep then cur # split_from sep [] cs else split_from sep (cur @ [c]) cs)"

definition py_split :: "char \<Rightarrow> string \<Rightarrow> string list" where
  "py_split sep s = split_from sep [] s"

text \<open>\<open>sep.join(parts)\<close>.\<close>

fun py_join :: "string \<Rightarrow> string list \<Rightarrow> string" where
  "py_join sep [] = []"
| "py_join sep [p] = p"
| "py_join sep (p # q # ps) = p @ sep @ py_join sep (q # ps)"

subsection \<open>\<open>inspect.Parameter\<close>\<close>

text \<open>
  Line 189 builds \<open>inspect.Parameter(name, KEYWORD_ONLY)\<close>, whose constructor checks
  the name: it reads \<open>name[0]\<close>, refuses a dot followed by digits (the name of an
  implicit argument) for this kind, and refuses a keyword and whatever
  \<open>str.isidentifier\<close> refuses. \<open>parameter_error\<close> is the exception it raises, if
  any. Below 256, an identifier starts with a letter or an underscore and goes on with
  letters, underscores, digits and the middle dot \<open>0xB7\<close>; \<open>str.isdigit\<close> holds of
  the ten digits and the superscripts \<open>0xB2\<close>, \<open>0xB3\<close>, \<open>0xB9\<close>.
\<close>

definition kwlist :: "string list" where
  "kwlist = [''False'', ''None'', ''True'', ''and'', ''as'', ''assert'', ''async'', ''await'',
     ''break'', ''class'', ''continue'', ''def'', ''del'', ''elif'', ''else'', ''except'',
     ''finally'', ''for'', ''from'', ''global'', ''if'', ''import'', ''in'', ''is'', ''lambda'',
     ''nonlocal'', ''not'', ''or'', ''pass'', ''raise'', ''return'', ''try'', ''while'', ''with'',
     ''yield'']"

definition iskeyword :: "string \<Rightarrow> bool" where
  "iskeyword s = (s \<in> set kwlist)"

definition identifier_start :: "char list" where
  "identifier_start = uppercase @ lowercase @ [CHR ''_'', CHR 0xAA, CHR 0xB5, CHR 0xBA, CHR 0xDF, CHR 0xFF]"

definition identifier_continue :: "char list" where
  "identifier_continue = identifier_start @ ''0123456789'' @ [CHR 0xB7]"

definition isidentifier :: "string \<Rightarrow> bool" where
  "isidentifier s =
     (case s of
        [] \<Rightarrow> False
      | c # cs \<Rightarrow> c \<in> set identifier_start \<and> list_all (\<lambda>d. d \<in> set identifier_continue) cs)"

definition isdigit :: "string \<Rightarrow> bool" where
  "isdigit s =
     (s \<noteq> [] \<and> list_all (\<lambda>d. d \<in> set (''0123456789'' @ [CHR 0xB2, CHR 0xB3, CHR 0xB9])) s)"

definition parameter_error :: "string \<Rightarrow> exn option" where
  "parameter_error name =
     (case name of
        [] \<Rightarrow> Some (IndexError ''string index out of range'')
      | c # cs \<Rightarrow>
          if c = CHR ''.'' \<and> isdigit cs
            then Some (ValueError ''implicit arguments must be passed as positional or keyword arguments'')
          else if iskeyword name \<or> \<not> isidentifier name
            then Some (ValueError ''is not a valid parameter name'')
          else None)"

subsection \<open>The tokenizer: \<open>shlex.split\<close>\<close>

text \<open>
  \<open>shlex.split(s)\<close> runs the lexer in POSIX mode with \<open>whitespace_split\<close> set and
  no comment characters. The lexer is a state machine over the characters: state
  \<open>' '\<close> between tokens, \<open>'a'\<close> inside a word, a quote character inside a quoted
  part, and the escape character after a backslash. \<open>escapedstate\<close> is the state to
  return to after an escape, \<open>quoted\<close> records that the token has a quoted part (so
  that an empty quoted token is kept). Reaching the end of the input inside quotes or
  after a backslash raises \<open>ValueError\<close>.
\<close>

datatype lex_state = Between | InWord | InQuote char | AfterEscape

definition whitespace :: "char list" where
  "whitespace = [CHR '' '', CHR 0x09, CHR 0x0D, CHR 0x0A]"

definition quotes :: "char list" where
  "quotes = [CHR 0x27, CHR 0x22]"

definition escape :: char where
  "escape = CHR 0x5C"

definition escapedquotes :: "char list" where
  "escapedquotes = [CHR 0x22]"

definition emit :: "string \<Rightarrow> exn + string list \<Rightarrow> exn + string list" where
  "emit tok rest = (case rest of Inl e \<Rightarrow> Inl e | Inr toks \<Rightarrow> Inr (tok # toks))"

definition at_eof :: "bool \<Rightarrow> string \<Rightarrow> exn + string list" where
  "at_eof quoted tok = (if \<not> quoted \<and> tok = [] then Inr [] else Inr [tok])"

fun read_tokens ::
  "lex_state \<Rightarrow> lex_state \<Rightarrow> bool \<Rightarrow> string \<Rightarrow> string \<Rightarrow> exn + string list" where
  "read_tokens state escapedstate quoted tok [] =
     (case state of
        Between \<Rightarrow> at_eof quoted tok
      | InWord \<Rightarrow> at_eof quoted tok
      | InQuote q \<Rightarrow> Inl (ValueError ''No closing quotation'')
      | AfterEscape \<Rightarrow> Inl (ValueError ''No escaped character''))"
| "read_tokens state escapedstate quoted tok (c # cs) =
     (case state of
        Between \<Rightarrow>
          if c \<in> set whitespace then
            (if tok \<noteq> [] \<or> quoted
             then emit tok (read_tokens Between Between False [] cs)
             else read_tokens Between escapedstate quoted tok cs)
          else if c = escape then read_tokens AfterEscape InWord quoted tok cs
          else if c \<in> set quotes then read_tokens (InQuote c) escapedstate quoted tok cs
          else read_tokens InWord escapedstate quoted [c] cs
      | InQuote q \<Rightarrow>
          if c = q then read_tokens InWord escapedstate True tok cs
          else if c = escape \<and> q \<in> set escapedquotes
            then read_tokens AfterEscape (InQuote q) True tok cs
          else read_tokens (InQuote q) escapedstate True (tok @ [c]) cs
      | AfterEscape \<Rightarrow>
          (case escapedstate of
             InQuote q \<Rightarrow>
               read_tokens escapedstate escapedstate quoted
                 ((if c \<noteq> escape \<and> c \<noteq> q then tok @ [escape] else tok) @ [c]) cs
           | _ \<Rightarrow> read_tokens escapedstate escapedstate quoted (tok @ [c]) cs)
      | InWord \<Rightarrow>
          if c \<in> set whitespace then
            (if tok \<noteq> [] \<or> quoted
             then emit tok (read_tokens Between Between False [] cs)
             else read_tokens Between escapedstate quoted tok cs)
          else if c \<in> set quotes then read_tokens (InQuote c) escapedstate quoted tok cs
          else if c = escape then read_tokens AfterEscape InWord quoted tok cs
          else read_tokens InWord escapedstate quoted (tok @ [c]) cs)"

definition shlex_split :: "string \<Rightarrow> exn + string list" where
  "shlex_split s = read_tokens Between Between False [] s"

subsection \<open>Dictionaries\<close>

type_synonym 'v dict = "(string \<times> 'v) list"

text \<open>\<open>d[k] = v\<close>: an existing key keeps its place, a new key goes to the end.\<close>

fun setitem :: "string \<Rightarrow> 'v \<Rightarrow> 'v dict \<Rightarrow> 'v dict" where
  "setitem k v [] = [(k, v)]"
| "setitem k v ((k', v') # d) = (if k' = k then (k, v) # d else (k', v') # setitem k v d)"

subsection \<open>Converters and arguments\<close>

text \<open>
  What \<open>_convert_value\<close> asks of a converter object that is not \<open>bool\<close>: its
  \<open>__module__\<close> (a string or \<open>None\<close>), its \<open>__name__\<close> (absent on instances), and
  its shape:
  \<^item> \<open>ConverterClass\<close>: a class that subclasses \<open>commands.Converter\<close>; the outcome
    of instantiating it with no argument, an instance's \<open>convert(ctx, value)\<close>;
  \<^item> \<open>OtherClass\<close>: any other class; its \<open>convert\<close> attribute when that is a bound
    method (a classmethod), and the outcome of calling the class on the value;
  \<^item> \<open>ConverterInstance\<close>: an instance of \<open>commands.Converter\<close>, with its
    \<open>convert(ctx, value)\<close>;
  \<^item> \<open>OtherObject\<close>: anything else, with the outcome of calling it on the value.

  Every converter object is taken to have a \<open>__module__\<close>, as classes, functions and
  instances of Python classes do. The exceptions of the model are instances of
  \<open>Exception\<close>, the only ones the handlers of the source catch.
\<close>

datatype 'ctx shape =
    ConverterClass "exn + ('ctx \<Rightarrow> string \<Rightarrow> exn + pyval)"
  | OtherClass "('ctx \<Rightarrow> string \<Rightarrow> exn + pyval) option" "string \<Rightarrow> exn + pyval"
  | ConverterInstance "'ctx \<Rightarrow> string \<Rightarrow> exn + pyval"
  | OtherObject "string \<Rightarrow> exn + pyval"

record 'ctx pyobject =
  module_of :: "string option"
  name_of :: "string option"
  shape_of :: "'ctx shape"

datatype 'ctx converter = BoolType | Object "'ctx pyobject"

text \<open>The builtin \<open>str\<close>: a class with no \<open>convert\<close>; \<open>str(value)\<close> is the value.\<close>

definition str_type :: "'ctx converter" where
  "str_type = Object \<lparr>module_of = Some ''builtins'', name_of = Some ''str'',
                       shape_of = OtherClass None (\<lambda>v. Inr (PyStr v))\<rparr>"

text \<open>
  \<open>class Argument\<close> with its two subclasses; \<open>isinstance(a, RequiredArgument)\<close> is
  \<open>is_RequiredArgument a\<close>. The default \<open>None\<close> is \<open>PyNone\<close>.
\<close>

datatype 'ctx argument =
    is_OptionalArgument: OptionalArgument (converter: "'ctx converter") (doc: string) (default: pyval)
  | is_RequiredArgument: RequiredArgument (converter: "'ctx converter") (doc: string) (default: pyval)

text \<open>
  \<open>self.arguments\<close>: the keyword arguments of the constructor, in the order given and
  under the names given. Any string can be a name: a call can pass its keyword
  arguments as \<open>**dict\<close>.
\<close>

type_synonym 'ctx registry = "(string \<times> 'ctx argument) list"

text \<open>
  The namespace of \<open>discord.ext.commands.converter\<close>, read by name with \<open>getattr\<close>:
  a parameter of the model.
\<close>

type_synonym 'ctx adapters = "string \<Rightarrow> 'ctx pyobject option"

subsection \<open>\<open>ArgumentConverter\<close>\<close>

text \<open>\<open>_convert_to_bool(self, value)\<close>, lines 110 to 121.\<close>

definition convert_to_bool :: "string \<Rightarrow> exn + pyval" where
  "convert_to_bool v =
     (let lowered = lower v in
      if lowered \<in> set [''ja'', ''yes'', ''y'', ''true'', ''t'', ''1'', ''enable'', ''on'']
        then Inr (PyBool True)
      else if lowered \<in> set [''nein'', ''no'', ''false'', ''f'', ''0'', ''disable'', ''off'']
        then Inr (PyBool False)
      else Inl (ConversionError (SubjectValue v) None))"

text \<open>
  The names bound at module level in \<^verbatim>\<open>discord_argparse.py\<close>: its imports, \<open>__all__\<close>
  and its classes. A name used bare inside a method is looked up here (and then in the
  builtins), never in the class body.
\<close>

definition module_globals :: "string list" where
  "module_globals = [''abc'', ''shlex'', ''inspect'', ''commands'', ''converters'',
     ''__all__'', ''Argument'', ''OptionalArgument'', ''RequiredArgument'',
     ''ArgumentConverter'', ''InvalidArgumentValueError'', ''UnknownArgumentError'']"

text \<open>
  Lines 133 to 140: a converter from a \<open>discord.\<close> module other than the converter
  module is replaced by the adapter named \<open><name>Converter\<close>. Reading \<open>__name__\<close>
  and the \<open>getattr\<close> are outside every \<open>try\<close> of \<open>_convert_value\<close>.
\<close>

definition resolve :: "'ctx adapters \<Rightarrow> 'ctx pyobject \<Rightarrow> exn + 'ctx pyobject" where
  "resolve adapters c =
     (case module_of c of
        None \<Rightarrow> Inr c
      | Some m \<Rightarrow>
          if prefix ''discord.'' m \<and> \<not> suffix ''converter'' m then
            (case name_of c of
               None \<Rightarrow> Inl (AttributeError ''__name__'')
             | Some n \<Rightarrow>
                 (case adapters (n @ ''Converter'') of
                    None \<Rightarrow> Inl (AttributeError (n @ ''Converter''))
                  | Some a \<Rightarrow> Inr a))
          else Inr c)"

text \<open>Lines 157 to 160: the plain call, every exception wrapped.\<close>

definition call_plain :: "(string \<Rightarrow> exn + pyval) \<Rightarrow> string \<Rightarrow> exn + pyval" where
  "call_plain f v =
     (case f v of Inl e \<Rightarrow> Inl (ConversionError SubjectConverter (Some e)) | Inr r \<Rightarrow> Inr r)"

text \<open>
  Lines 142 to 160. The result of a classmethod \<open>convert\<close> is bound to \<open>ret\<close> and
  not returned: control goes on to the plain call.
\<close>

definition invoke :: "'ctx \<Rightarrow> 'ctx pyobject \<Rightarrow> string \<Rightarrow> exn + pyval" where
  "invoke ctx c v =
     (case shape_of c of
        ConverterClass new \<Rightarrow>
          (case new of
             Inl e \<Rightarrow> Inl (ConversionError SubjectConverter (Some e))
           | Inr conv \<Rightarrow>
               (case conv ctx v of
                  Inl e \<Rightarrow> Inl (ConversionError SubjectConverter (Some e))
                | Inr ret \<Rightarrow> Inr ret))
      | OtherClass method call \<Rightarrow>
          (case method of
             None \<Rightarrow> call_plain call v
           | Some conv \<Rightarrow>
               (case conv ctx v of
                  Inl e \<Rightarrow> Inl (ConversionError SubjectConverter (Some e))
                | Inr ret \<Rightarrow> call_plain call v))
      | ConverterInstance conv \<Rightarrow>
          (case conv ctx v of
             Inl e \<Rightarrow> Inl (ConversionError SubjectConverter (Some e))
           | Inr ret \<Rightarrow> Inr ret)
      | OtherObject call \<Rightarrow> call_plain call v)"

text \<open>
  \<open>_convert_value(self, ctx, converter, value)\<close>, lines 123 to 160. For \<open>bool\<close>,
  line 131 calls the bare name \<open>_convert_to_bool\<close>.
\<close>

definition convert_value ::
  "'ctx adapters \<Rightarrow> 'ctx \<Rightarrow> 'ctx converter \<Rightarrow> string \<Rightarrow> exn + pyval" where
  "convert_value adapters ctx conv v =
     (case conv of
        BoolType \<Rightarrow>
          if ''_convert_to_bool'' \<in> set module_globals then convert_to_bool v
          else Inl (NameError ''_convert_to_bool'')
      | Object c \<Rightarrow>
          (case resolve adapters c of
             Inl e \<Rightarrow> Inl e
           | Inr c' \<Rightarrow> invoke ctx c' v))"

text \<open>
  The two \<open>except\<close> clauses of lines 182 to 185: a \<open>ConversionError\<close> becomes
  \<open>InvalidArgumentValueError(name, value)\<close>, any other exception is wrapped in a
  \<open>ConversionError\<close> of the \<open>ArgumentConverter\<close>.
\<close>

definition on_exception :: "string \<Rightarrow> string \<Rightarrow> exn \<Rightarrow> exn" where
  "on_exception name v e =
     (case e of
        ConversionError s cause \<Rightarrow> InvalidArgumentValueError name v
      | _ \<Rightarrow> ConversionError SubjectSelf (Some e))"

text \<open>The body of the loop over the tokens, lines 166 to 185.\<close>

definition convert_arg ::
  "'ctx adapters \<Rightarrow> 'ctx registry \<Rightarrow> 'ctx \<Rightarrow> string \<Rightarrow> pyval dict \<Rightarrow> exn + pyval dict" where
  "convert_arg adapters arguments ctx raw_arg converted =
     (if CHR ''='' \<notin> set raw_arg then Inr converted
      else
        (case py_split (CHR ''='') raw_arg of
           [] \<Rightarrow> Inl (ValueError ''not enough values to unpack'')
         | name # values \<Rightarrow>
             (let v = py_join ''='' values in
              case map_of arguments (lower name) of
                None \<Rightarrow> Inl (UnknownArgumentError name)
              | Some argument \<Rightarrow>
                  (case convert_value adapters ctx (converter argument) v of
                     Inr converted_value \<Rightarrow> Inr (setitem name converted_value converted)
                   | Inl e \<Rightarrow> Inl (on_exception name v e)))))"

text \<open>The loop over the tokens, line 165.\<close>

fun convert_loop ::
  "'ctx adapters \<Rightarrow> 'ctx registry \<Rightarrow> 'ctx \<Rightarrow> string list \<Rightarrow> pyval dict \<Rightarrow> exn + pyval dict" where
  "convert_loop adapters arguments ctx [] converted = Inr converted"
| "convert_loop adapters arguments ctx (raw_arg # rest) converted =
     (case convert_arg adapters arguments ctx raw_arg converted of
        Inl e \<Rightarrow> Inl e
      | Inr converted' \<Rightarrow> convert_loop adapters arguments ctx rest converted')"

text \<open>
  Lines 189 to 190, the exception that leaves them: the parameter is built first, and
  outside every \<open>try\<close>, so an exception of its constructor goes to the caller in
  the place of \<open>MissingRequiredArgument\<close>.
\<close>

definition missing_required :: "string \<Rightarrow> exn" where
  "missing_required name =
     (case parameter_error name of
        Some e \<Rightarrow> e
      | None \<Rightarrow> MissingRequiredArgument name)"

text \<open>The loop over the declared arguments, lines 187 to 193.\<close>

fun fill_loop :: "'ctx registry \<Rightarrow> pyval dict \<Rightarrow> exn + pyval dict" where
  "fill_loop [] converted = Inr converted"
| "fill_loop ((name, argument) # rest) converted =
     (if is_RequiredArgument argument \<and> map_of converted name = None
        then Inl (missing_required name)
      else if default argument \<noteq> PyNone \<and> map_of converted name = None
        then fill_loop rest (setitem name (default argument) converted)
      else fill_loop rest converted)"

text \<open>\<open>convert\<close> from the tokens on, lines 163 to 195.\<close>

definition convert_tokens ::
  "'ctx adapters \<Rightarrow> 'ctx registry \<Rightarrow> 'ctx \<Rightarrow> string list \<Rightarrow> exn + pyval dict" where
  "convert_tokens adapters arguments ctx toks =
     (case convert_loop adapters arguments ctx toks [] of
        Inl e \<Rightarrow> Inl e
      | Inr converted \<Rightarrow> fill_loop arguments converted)"

text \<open>
  \<open>convert(self, ctx, argstr)\<close>, lines 162 to 195; \<open>argstr or ""\<close> turns an absent
  string into the empty one. An exception of the tokenizer is raised as it is.
\<close>

definition convert ::
  "'ctx adapters \<Rightarrow> 'ctx registry \<Rightarrow> 'ctx \<Rightarrow> string option \<Rightarrow> exn + pyval dict" where
  "convert adapters arguments ctx argstr =
     (case shlex_split (case argstr of None \<Rightarrow> [] | Some s \<Rightarrow> s) of
        Inl e \<Rightarrow> Inl e
      | Inr toks \<Rightarrow> convert_tokens adapters arguments ctx toks)"

text \<open>\<open>defaults(self)\<close>, lines 197 to 203.\<close>

fun defaults_loop :: "'ctx registry \<Rightarrow> pyval dict \<Rightarrow> pyval dict" where
  "defaults_loop [] default_arguments = default_arguments"
| "defaults_loop ((name, argument) # rest) default_arguments =
     (if default argument \<noteq> PyNone
        then defaults_loop rest (setitem name (default argument) default_arguments)
      else defaults_loop rest default_arguments)"

definition defaults :: "'ctx registry \<Rightarrow> pyval dict" where
  "defaults arguments = defaults_loop arguments []"

subsection \<open>The split on the first separator, as the specification words it\<close>

text \<open>
  The specification says that a token is split on its first \<open>=\<close>: the name is what
  comes before it, the value everything after it. These two definitions follow those
  words; \<open>convert_arg\<close> above follows the code (\<open>split\<close>, then \<open>join\<close>).
\<close>

definition first_eq_name :: "string \<Rightarrow> string" where
  "first_eq_name tok = takeWhile (\<lambda>c. c \<noteq> CHR ''='') tok"

definition first_eq_value :: "string \<Rightarrow> string" where
  "first_eq_value tok = tl (dropWhile (\<lambda>c. c \<noteq> CHR ''='') tok)"

subsection \<open>Supplied names and respelled errors, as the specification words them\<close>

text \<open>
  The specification matches names without regard to letter case, so the declared names
  that an input supplies are the lower-cased names of its \<open>name=value\<close> tokens.
\<close>

definition supplied :: "string list \<Rightarrow> string list" where
  "supplied toks = map (\<lambda>t. lower (first_eq_name t)) (filter (\<lambda>t. CHR ''='' \<in> set t) toks)"


subsection \<open>An exception raised by the converter's own code\<close>

text \<open>
  The specification speaks of an exception raised while a converter is invoked. Read
  on the shapes above, \<open>invocation_raises ctx c v e\<close> says that \<open>e\<close> is the first
  exception that the code of the converter \<open>c\<close> raises when lines 142 to 160 run it
  on \<open>v\<close>: in the instantiation or in \<open>convert\<close> for a converter class, in the
  classmethod \<open>convert\<close> or else in the call for another class, in \<open>convert\<close> for
  a converter instance, in the call for anything else.
\<close>

definition invocation_raises :: "'ctx \<Rightarrow> 'ctx pyobject \<Rightarrow> string \<Rightarrow> exn \<Rightarrow> bool" where
  "invocation_raises ctx c v e =
     (case shape_of c of
        ConverterClass new \<Rightarrow>
          (case new of Inl e' \<Rightarrow> e' = e | Inr conv \<Rightarrow> conv ctx v = Inl e)
      | OtherClass method call \<Rightarrow>
          (case method of
             None \<Rightarrow> call v = Inl e
           | Some conv \<Rightarrow> (case conv ctx v of Inl e' \<Rightarrow> e' = e | Inr ret \<Rightarrow> call v = Inl e))
      | ConverterInstance conv \<Rightarrow> conv ctx v = Inl e
      | OtherObject call \<Rightarrow> call v = Inl e)"

subsection \<open>Example declarations\<close>

text \<open>
  The registry of the class docstring with the defaults the specification gives it:
  \<open>turns\<close> required with default 10, \<open>images\<close> optional with default \<open>True\<close>,
  \<open>voice_channel\<close> optional with no default. \<open>defaults\<close> never looks at a
  converter; \<open>str\<close> stands where the docstring has \<open>int\<close> and a channel type.
\<close>

definition quiz_arguments :: "unit registry" where
  "quiz_arguments =
     [(''turns'', RequiredArgument str_type ''The number of turns this quiz has.'' (PyInt 10)),
      (''images'', OptionalArgument BoolType ''(Dis-)allow image questions.'' (PyBool True)),
      (''voice_channel'', OptionalArgument str_type '''' PyNone)]"

text \<open>A required argument with no default and an optional one with a default.\<close>

definition quiz_options :: "unit registry" where
  "quiz_options =
     [(''turns'', RequiredArgument str_type '''' PyNone),
      (''mode'', OptionalArgument str_type '''' (PyStr ''easy''))]"

text \<open>A function of the user's own module that raises \<open>ValueError\<close> for every value.\<close>

definition rejecting_function :: "'ctx converter" where
  "rejecting_function =
     Object \<lparr>module_of = Some ''__main__'', name_of = Some ''reject'',
             shape_of = OtherObject (\<lambda>v. Inl (ValueError ''rejected''))\<rparr>"

text \<open>
  The class \<open>discord.Embed\<close>, of module \<open>discord.embeds\<close>: it has no \<open>convert\<close>,
  and its constructor takes keyword arguments only, so calling it on a value raises
  \<open>TypeError\<close>. The converter module has no \<open>EmbedConverter\<close>.
\<close>

definition embed_type :: "'ctx converter" where
  "embed_type =
     Object \<lparr>module_of = Some ''discord.embeds'', name_of = Some ''Embed'',
             shape_of = OtherClass None (\<lambda>v. Inl (TypeError ''takes 1 positional argument''))\<rparr>"


section \<open>Properties\<close>

lemmas lower_simps = lower_def lower_char_def uppercase_def lowercase_def

lemmas parameter_simps =
  parameter_error_def isdigit_def iskeyword_def kwlist_def isidentifier_def
  identifier_start_def identifier_continue_def uppercase_def lowercase_def

subsection \<open>Splitting and joining\<close>

lemma split_from_head:
  "split_from sep cur s =
     (cur @ takeWhile (\<lambda>c. c \<noteq> sep) s) #
       (case dropWhile (\<lambda>c. c \<noteq> sep) s of [] \<Rightarrow> [] | _ # r \<Rightarrow> split_from sep [] r)"
  by (induction s arbitrary: cur) auto

lemma split_from_nonempty: "split_from sep cur s \<noteq> []"
  by (induction s arbitrary: cur) auto

lemma join_split_from: "py_join [sep] (split_from sep cur s) = cur @ s"
proof (induction s arbitrary: cur)
  case Nil
  then show ?case by simp
next
  case (Cons c cs)
  show ?case
  proof (cases "c = sep")
    case True
    have "split_from sep [] cs \<noteq> []" by (rule split_from_nonempty)
    then obtain p ps where "split_from sep [] cs = p # ps"
      by (cases "split_from sep [] cs") auto
    with Cons[of "[]"] True show ?thesis by simp
  next
    case False
    with Cons show ?thesis by simp
  qed
qed

lemma py_join_py_split: "py_join ''='' (py_split (CHR ''='') s) = s"
  unfolding py_split_def using join_split_from[of "CHR ''=''" "[]" s] by simp

lemma py_split_token:
  assumes "CHR ''='' \<in> set tok"
  shows "py_split (CHR ''='') tok = first_eq_name tok # py_split (CHR ''='') (first_eq_value tok)"
proof -
  from assms have "dropWhile (\<lambda>c. c \<noteq> CHR ''='') tok \<noteq> []"
    by (simp add: dropWhile_eq_Nil_conv)
  then obtain x r where "dropWhile (\<lambda>c. c \<noteq> CHR ''='') tok = x # r"
    by (cases "dropWhile (\<lambda>c. c \<noteq> CHR ''='') tok") auto
  then show ?thesis
    unfolding py_split_def first_eq_name_def first_eq_value_def
    by (subst split_from_head) simp
qed

lemma token_decompose:
  assumes "CHR ''='' \<in> set tok"
  shows "tok = first_eq_name tok @ ''='' @ first_eq_value tok"
proof -
  from assms have ne: "dropWhile (\<lambda>c. c \<noteq> CHR ''='') tok \<noteq> []"
    by (simp add: dropWhile_eq_Nil_conv)
  then have "hd (dropWhile (\<lambda>c. c \<noteq> CHR ''='') tok) = CHR ''=''"
    using hd_dropWhile[of "\<lambda>c. c \<noteq> CHR ''=''" tok] by simp
  with ne have "dropWhile (\<lambda>c. c \<noteq> CHR ''='') tok = CHR ''='' # first_eq_value tok"
    unfolding first_eq_value_def by (cases "dropWhile (\<lambda>c. c \<noteq> CHR ''='') tok") auto
  then show ?thesis
    unfolding first_eq_name_def
    by (metis append_Cons append_Nil takeWhile_dropWhile_id)
qed

lemma first_eq_name_Cons [simp]:
  "CHR ''='' \<notin> set n \<Longrightarrow> first_eq_name (n @ CHR ''='' # v) = n"
  unfolding first_eq_name_def by (induction n) auto

lemma first_eq_value_Cons [simp]:
  "CHR ''='' \<notin> set n \<Longrightarrow> first_eq_value (n @ CHR ''='' # v) = v"
  unfolding first_eq_value_def by (induction n) auto

subsection \<open>Dictionaries\<close>

lemma map_of_setitem: "map_of (setitem k v d) = (map_of d)(k \<mapsto> v)"
  by (induction d) (auto simp: fun_eq_iff)

lemma keys_setitem: "fst ` set (setitem k v d) = insert k (fst ` set d)"
  by (induction k v d rule: setitem.induct) auto

lemma map_fst_setitem:
  "map fst (setitem k v d) = (if k \<in> fst ` set d then map fst d else map fst d @ [k])"
  by (induction k v d rule: setitem.induct) auto

lemma distinct_setitem: "distinct (map fst d) \<Longrightarrow> distinct (map fst (setitem k v d))"
  by (simp add: map_fst_setitem)

subsection \<open>One token\<close>

lemma convert_arg_skip: "CHR ''='' \<notin> set tok \<Longrightarrow> convert_arg A reg ctx tok d = Inr d"
  by (simp add: convert_arg_def)

lemma convert_arg_token:
  assumes "CHR ''='' \<in> set tok"
  shows "convert_arg A reg ctx tok d =
     (case map_of reg (lower (first_eq_name tok)) of
        None \<Rightarrow> Inl (UnknownArgumentError (first_eq_name tok))
      | Some a \<Rightarrow>
          (case convert_value A ctx (converter a) (first_eq_value tok) of
             Inr x \<Rightarrow> Inr (setitem (first_eq_name tok) x d)
           | Inl e \<Rightarrow> Inl (on_exception (first_eq_name tok) (first_eq_value tok) e)))"
  using assms
  by (simp add: convert_arg_def py_split_token py_join_py_split Let_def
        split: option.splits sum.splits)

lemma convert_loop_append:
  "convert_loop A reg ctx (xs @ ys) d =
     (case convert_loop A reg ctx xs d of
        Inl e \<Rightarrow> Inl e
      | Inr d' \<Rightarrow> convert_loop A reg ctx ys d')"
  by (induction xs arbitrary: d) (auto split: sum.splits)

lemmas shlex_simps =
  shlex_split_def whitespace_def quotes_def escape_def escapedquotes_def emit_def at_eof_def

lemma convert_value_str: "convert_value A ctx str_type v = Inr (PyStr v)"
  by (simp add: convert_value_def str_type_def resolve_def invoke_def call_plain_def)

subsection \<open>The boolean converter\<close>

text \<open>
  The method \<open>_convert_to_bool\<close> itself recognises the two sets of literals, whatever
  the letter case.
\<close>

lemma convert_to_bool_truthy:
  "lower v \<in> set [''ja'', ''yes'', ''y'', ''true'', ''t'', ''1'', ''enable'', ''on'']
     \<Longrightarrow> convert_to_bool v = Inr (PyBool True)"
  by (simp add: convert_to_bool_def)

lemma convert_to_bool_falsy:
  "lower v \<in> set [''nein'', ''no'', ''false'', ''f'', ''0'', ''disable'', ''off'']
     \<Longrightarrow> convert_to_bool v = Inr (PyBool False)"
  by (auto simp add: convert_to_bool_def)

text \<open>
  It is never reached: \<open>_convert_value\<close> calls it by its bare name, which is not
  bound at module level, so the call raises \<open>NameError\<close> for every value.
\<close>

lemma convert_value_bool:
  "convert_value A ctx BoolType v = Inl (NameError ''_convert_to_bool'')"
  by (simp add: convert_value_def module_globals_def)

text \<open>
  C1. For an argument \<open>images\<close> declared with the converter \<open>bool\<close>, the input
  \<open>images=true\<close> should give the mapping with \<open>images: True\<close>. The code instead
  raises: the \<open>NameError\<close> of the call on line 131 is not a \<open>ConversionError\<close>, so
  \<open>convert\<close> wraps it in a \<open>ConversionError\<close> of its own (lines 184 to 185).
\<close>

theorem bool_argument_raises_name_error:
  "convert (\<lambda>n. None) [(''images'', OptionalArgument BoolType '''' (PyBool True))] ()
       (Some ''images=true'')
     = Inl (ConversionError SubjectSelf (Some (NameError ''_convert_to_bool'')))"
  by (simp add: convert_def shlex_simps convert_tokens_def convert_arg_def py_split_def
        lower_simps convert_value_bool on_exception_def)

subsection \<open>Tokens with and without a separator\<close>

text \<open>
  C8. A token that contains \<open>=\<close> is split on the first one: the token is the name,
  \<open>=\<close>, and the value; the name holds no \<open>=\<close>, so every later \<open>=\<close> is in the
  value; and the loop body looks the name up and converts exactly that value. For
  \<open>path=a=b\<close> the value converted for \<open>path\<close> is \<open>a=b\<close>.
\<close>

theorem token_split_on_first_separator:
  assumes "CHR ''='' \<in> set tok"
  shows "tok = first_eq_name tok @ ''='' @ first_eq_value tok
       \<and> CHR ''='' \<notin> set (first_eq_name tok)
       \<and> convert_arg A reg ctx tok d =
           (case map_of reg (lower (first_eq_name tok)) of
              None \<Rightarrow> Inl (UnknownArgumentError (first_eq_name tok))
            | Some a \<Rightarrow>
                (case convert_value A ctx (converter a) (first_eq_value tok) of
                   Inr x \<Rightarrow> Inr (setitem (first_eq_name tok) x d)
                 | Inl e \<Rightarrow> Inl (on_exception (first_eq_name tok) (first_eq_value tok) e)))"
proof (intro conjI)
  show "tok = first_eq_name tok @ ''='' @ first_eq_value tok"
    using assms by (rule token_decompose)
  show "CHR ''='' \<notin> set (first_eq_name tok)"
    unfolding first_eq_name_def by (auto dest: set_takeWhileD)
  show "convert_arg A reg ctx tok d =
           (case map_of reg (lower (first_eq_name tok)) of
              None \<Rightarrow> Inl (UnknownArgumentError (first_eq_name tok))
            | Some a \<Rightarrow>
                (case convert_value A ctx (converter a) (first_eq_value tok) of
                   Inr x \<Rightarrow> Inr (setitem (first_eq_name tok) x d)
                 | Inl e \<Rightarrow> Inl (on_exception (first_eq_name tok) (first_eq_value tok) e)))"
    using assms by (rule convert_arg_token)
qed

theorem token_split_on_first_separator_witness:
  "CHR ''='' \<in> set ''path=a=b''
   \<and> first_eq_name ''path=a=b'' = ''path'' \<and> first_eq_value ''path=a=b'' = ''a=b''
   \<and> convert_arg (\<lambda>n. None) [(''path'', OptionalArgument str_type '''' PyNone)] ()
         ''path=a=b'' []
       = Inr [(''path'', PyStr ''a=b'')]
   \<and> convert (\<lambda>n. None) [(''path'', OptionalArgument str_type '''' PyNone)] ()
         (Some ''path=a=b'')
       = Inr [(''path'', PyStr ''a=b'')]"
proof -
  have h: "CHR ''='' \<in> set ''path=a=b''" by simp
  have n: "first_eq_name ''path=a=b'' = ''path''" by (simp add: first_eq_name_def)
  have v: "first_eq_value ''path=a=b'' = ''a=b''" by (simp add: first_eq_value_def)
  have l: "lower ''path'' = ''path''" by (simp add: lower_simps)
  have a: "convert_arg (\<lambda>n. None) [(''path'', OptionalArgument str_type '''' PyNone)] ()
             ''path=a=b'' []
       = Inr [(''path'', PyStr ''a=b'')]"
    using token_split_on_first_separator
      [OF h, of "\<lambda>n. None" "[(''path'', OptionalArgument str_type '''' PyNone)]" "()" "[]"]
    by (simp add: n v l convert_value_str)
  have s: "shlex_split ''path=a=b'' = Inr [''path=a=b'']" by (simp add: shlex_simps)
  have "convert (\<lambda>n. None) [(''path'', OptionalArgument str_type '''' PyNone)] ()
          (Some ''path=a=b'')
       = Inr [(''path'', PyStr ''a=b'')]"
    by (simp add: convert_def s convert_tokens_def a)
  with h n v a show ?thesis by blast
qed

text \<open>
  C9. A token with no \<open>=\<close> is dropped: the loop body returns the mapping unchanged
  whatever the registry holds, so no lookup decides anything and no error is raised,
  and the whole conversion gives the same result as for the input without that token.
  In particular, for every registry, \<open>foo turns=2\<close> gives the result of \<open>turns=2\<close>.
\<close>

theorem token_without_separator_discarded:
  assumes "CHR ''='' \<notin> set t"
  shows "convert_arg A reg ctx t d = Inr d
       \<and> convert_tokens A reg ctx (pre @ t # post) = convert_tokens A reg ctx (pre @ post)
       \<and> convert A reg ctx (Some ''foo turns=2'') = convert A reg ctx (Some ''turns=2'')"
proof -
  have skip: "convert_arg A reg ctx t' d' = Inr d'" if "CHR ''='' \<notin> set t'" for t' d'
    using that by (rule convert_arg_skip)
  have "convert_loop A reg ctx (pre @ t # post) [] = convert_loop A reg ctx (pre @ post) []"
    by (simp add: convert_loop_append skip [OF assms] cong: sum.case_cong)
  then have tokens:
    "convert_tokens A reg ctx (pre @ t # post) = convert_tokens A reg ctx (pre @ post)"
    by (simp add: convert_tokens_def)
  have s1: "shlex_split ''foo turns=2'' = Inr [''foo'', ''turns=2'']"
    by (simp add: shlex_simps)
  have s2: "shlex_split ''turns=2'' = Inr [''turns=2'']"
    by (simp add: shlex_simps)
  have "convert_loop A reg ctx [''foo'', ''turns=2''] [] = convert_loop A reg ctx [''turns=2''] []"
    by (simp add: skip)
  then have "convert A reg ctx (Some ''foo turns=2'') = convert A reg ctx (Some ''turns=2'')"
    by (simp add: convert_def s1 s2 convert_tokens_def)
  with skip [OF assms] tokens show ?thesis by blast
qed

theorem token_without_separator_discarded_witness:
  "CHR ''='' \<notin> set ''foo''
   \<and> convert_tokens (\<lambda>n. None) [(''turns'', RequiredArgument str_type '''' PyNone)] ()
         ([] @ ''foo'' # [''turns=2''])
       = Inr [(''turns'', PyStr ''2'')]
   \<and> convert (\<lambda>n. None) [(''turns'', RequiredArgument str_type '''' PyNone)] ()
         (Some ''foo turns=2'')
       = Inr [(''turns'', PyStr ''2'')]"
proof -
  have h: "CHR ''='' \<notin> set ''foo''" by simp
  have l: "lower ''turns'' = ''turns''" by (simp add: lower_simps)
  have a: "convert_arg (\<lambda>n. None) [(''turns'', RequiredArgument str_type '''' PyNone)] ()
             ''turns=2'' [] = Inr [(''turns'', PyStr ''2'')]"
    by (simp add: convert_arg_def py_split_def l convert_value_str)
  have t: "convert_tokens (\<lambda>n. None) [(''turns'', RequiredArgument str_type '''' PyNone)] ()
             ([] @ [''turns=2'']) = Inr [(''turns'', PyStr ''2'')]"
    by (simp add: convert_tokens_def a)
  have s: "shlex_split ''turns=2'' = Inr [''turns=2'']" by (simp add: shlex_simps)
  have c: "convert (\<lambda>n. None) [(''turns'', RequiredArgument str_type '''' PyNone)] ()
             (Some ''turns=2'') = Inr [(''turns'', PyStr ''2'')]"
    using t by (simp add: convert_def s)
  show ?thesis
    using token_without_separator_discarded
      [OF h, of "\<lambda>n. None" "[(''turns'', RequiredArgument str_type '''' PyNone)]" "()"
         "[]" "[]" "[''turns=2'']"]
      h t c
    by simp
qed

subsection \<open>Unknown names\<close>

lemma convert_arg_unknown:
  assumes "CHR ''='' \<in> set tok" "map_of reg (lower (first_eq_name tok)) = None"
  shows "convert_arg A reg ctx tok d = Inl (UnknownArgumentError (first_eq_name tok))"
  using assms by (simp add: convert_arg_token)

text \<open>
  C7. A token \<open>name=value\<close> whose lower-cased name is not declared makes \<open>convert\<close>
  fail with \<open>UnknownArgumentError(name)\<close> as soon as the loop reaches it, that is,
  when the tokens before it were consumed without error; the tokens after it are not
  looked at. And wherever that token stands, no mapping is returned.
\<close>

theorem unknown_argument_aborts:
  assumes "CHR ''='' \<in> set tok"
    and "map_of reg (lower (first_eq_name tok)) = None"
    and "convert_loop A reg ctx pre [] = Inr d"
  shows "convert_tokens A reg ctx (pre @ tok # post) = Inl (UnknownArgumentError (first_eq_name tok))
       \<and> (\<forall>pre' post' r. convert_tokens A reg ctx (pre' @ tok # post') \<noteq> Inr r)"
proof
  have stop: "convert_loop A reg ctx (tok # post') d' = Inl (UnknownArgumentError (first_eq_name tok))"
    for post' d'
    using convert_arg_unknown [OF assms(1,2)] by simp
  show "convert_tokens A reg ctx (pre @ tok # post) = Inl (UnknownArgumentError (first_eq_name tok))"
    by (simp add: convert_tokens_def convert_loop_append assms(3) stop del: convert_loop.simps)
  show "\<forall>pre' post' r. convert_tokens A reg ctx (pre' @ tok # post') \<noteq> Inr r"
  proof (intro allI)
    fix pre' post' r
    show "convert_tokens A reg ctx (pre' @ tok # post') \<noteq> Inr r"
      by (cases "convert_loop A reg ctx pre' []")
         (simp_all add: convert_tokens_def convert_loop_append stop del: convert_loop.simps)
  qed
qed

theorem unknown_argument_aborts_witness:
  "CHR ''='' \<in> set ''bogus=1''
   \<and> map_of [(''turns'', RequiredArgument (str_type :: unit converter) '''' PyNone)]
        (lower (first_eq_name ''bogus=1'')) = None
   \<and> convert_loop (\<lambda>n. None) [(''turns'', RequiredArgument str_type '''' PyNone)] ()
        [''turns=2''] []
       = Inr [(''turns'', PyStr ''2'')]
   \<and> convert_tokens (\<lambda>n. None) [(''turns'', RequiredArgument str_type '''' PyNone)] ()
        ([''turns=2''] @ ''bogus=1'' # [''turns=3''])
       = Inl (UnknownArgumentError ''bogus'')
   \<and> convert (\<lambda>n. None) [(''turns'', RequiredArgument str_type '''' PyNone)] ()
        (Some ''bogus=1'')
       = Inl (UnknownArgumentError ''bogus'')"
proof -
  have h1: "CHR ''='' \<in> set ''bogus=1''" by simp
  have n: "first_eq_name ''bogus=1'' = ''bogus''" by (simp add: first_eq_name_def)
  have h2: "map_of [(''turns'', RequiredArgument (str_type :: unit converter) '''' PyNone)]
              (lower (first_eq_name ''bogus=1'')) = None"
    by (simp add: n lower_simps)
  have l: "lower ''turns'' = ''turns''" by (simp add: lower_simps)
  have h3: "convert_loop (\<lambda>n. None) [(''turns'', RequiredArgument str_type '''' PyNone)] ()
              [''turns=2''] []
        = Inr [(''turns'', PyStr ''2'')]"
    by (simp add: convert_arg_def py_split_def l convert_value_str)
  note t = unknown_argument_aborts [OF h1 h2 h3, of "[''turns=3'']", unfolded n]
  have s: "shlex_split ''bogus=1'' = Inr [''bogus=1'']" by (simp add: shlex_simps)
  have c: "convert (\<lambda>n. None) [(''turns'', RequiredArgument str_type '''' PyNone)] ()
             (Some ''bogus=1'')
        = Inl (UnknownArgumentError ''bogus'')"
    using convert_arg_unknown [OF h1 h2, of "\<lambda>n. None" "()" "[]"]
    by (simp add: convert_def s convert_tokens_def n)
  from h1 h2 h3 t c show ?thesis by blast
qed

subsection \<open>The defaults accessor\<close>

lemma map_of_defaults_loop:
  "distinct (map fst reg) \<Longrightarrow>
   map_of (defaults_loop reg acc) n =
     (case map_of reg n of
        None \<Rightarrow> map_of acc n
      | Some a \<Rightarrow> if default a = PyNone then map_of acc n else Some (default a))"
proof (induction reg arbitrary: acc)
  case Nil
  then show ?case by simp
next
  case (Cons p reg)
  obtain k a where p: "p = (k, a)" by (cases p)
  from Cons.prems p have notin: "map_of reg k = None" and d: "distinct (map fst reg)"
    by (auto simp: map_of_eq_None_iff)
  show ?case
    using Cons.IH [OF d] notin
    by (auto simp: p map_of_setitem split: option.splits)
qed

lemma distinct_defaults_loop:
  "distinct (map fst acc) \<Longrightarrow> distinct (map fst (defaults_loop reg acc))"
  by (induction reg acc rule: defaults_loop.induct) (auto simp: distinct_setitem)

text \<open>
  C6. \<open>defaults()\<close> is a function of the registry alone, and its result maps a name
  to a value exactly when the name is declared with a default other than \<open>None\<close>,
  and then to that default, with one entry for each such name. The registry is a
  Python dict, so its names are distinct. For \<open>turns\<close> with default 10, \<open>images\<close>
  with default \<open>True\<close> and \<open>voice_channel\<close> with no default, the result is
  \<open>{turns: 10, images: True}\<close>.
\<close>

theorem defaults_mapping:
  assumes "distinct (map fst reg)"
  shows "map_of (defaults reg) n =
           (case map_of reg n of
              None \<Rightarrow> None
            | Some a \<Rightarrow> if default a = PyNone then None else Some (default a))
       \<and> distinct (map fst (defaults reg))"
  using map_of_defaults_loop [OF assms, of "[]" n] distinct_defaults_loop [of "[]" reg]
  by (simp add: defaults_def split: option.splits)

theorem defaults_mapping_witness:
  "distinct (map fst quiz_arguments)
   \<and> defaults quiz_arguments = [(''turns'', PyInt 10), (''images'', PyBool True)]
   \<and> map_of (defaults quiz_arguments) ''turns'' = Some (PyInt 10)
   \<and> map_of (defaults quiz_arguments) ''images'' = Some (PyBool True)
   \<and> map_of (defaults quiz_arguments) ''voice_channel'' = None"
proof -
  have h: "distinct (map fst quiz_arguments)" by (simp add: quiz_arguments_def)
  have e: "defaults quiz_arguments = [(''turns'', PyInt 10), (''images'', PyBool True)]"
    by (simp add: quiz_arguments_def defaults_def)
  have m: "map_of quiz_arguments ''voice_channel'' = Some (OptionalArgument str_type '''' PyNone)"
    by (simp add: quiz_arguments_def)
  have "map_of (defaults quiz_arguments) ''voice_channel'' = None"
    using defaults_mapping [OF h, of "''voice_channel''"] by (simp add: m)
  with h e show ?thesis by simp
qed

subsection \<open>What the loop over the tokens leaves in the mapping\<close>

lemma convert_arg_Inr:
  assumes "convert_arg A reg ctx t d = Inr d1"
  shows "(CHR ''='' \<notin> set t \<and> d1 = d) \<or>
         (CHR ''='' \<in> set t \<and>
           (\<exists>a x. map_of reg (lower (first_eq_name t)) = Some a
                \<and> convert_value A ctx (converter a) (first_eq_value t) = Inr x
                \<and> d1 = setitem (first_eq_name t) x d))"
proof (cases "CHR ''='' \<in> set t")
  case True
  with assms show ?thesis
    by (auto simp: convert_arg_token split: option.splits sum.splits)
next
  case False
  with assms show ?thesis by (simp add: convert_arg_skip)
qed

lemma convert_loop_other_key:
  assumes "convert_loop A reg ctx ts d = Inr d'"
    and "\<forall>u\<in>set ts. CHR ''='' \<in> set u \<longrightarrow> first_eq_name u \<noteq> k"
  shows "map_of d' k = map_of d k"
  using assms
proof (induction ts arbitrary: d)
  case Nil
  then show ?case by simp
next
  case (Cons t ts)
  from Cons.prems(1) obtain d1 where
    a: "convert_arg A reg ctx t d = Inr d1" and l: "convert_loop A reg ctx ts d1 = Inr d'"
    by (auto split: sum.splits)
  from convert_arg_Inr [OF a] Cons.prems(2) have "map_of d1 k = map_of d k"
    by (auto simp: map_of_setitem)
  with Cons.IH [OF l] Cons.prems(2) show ?case by simp
qed

lemma convert_loop_last_occurrence:
  assumes "convert_loop A reg ctx (pre @ t # post) d = Inr d'"
    and "CHR ''='' \<in> set t"
    and "\<forall>u\<in>set post. CHR ''='' \<in> set u \<longrightarrow> first_eq_name u \<noteq> first_eq_name t"
  shows "\<exists>a x. map_of reg (lower (first_eq_name t)) = Some a
           \<and> convert_value A ctx (converter a) (first_eq_value t) = Inr x
           \<and> map_of d' (first_eq_name t) = Some x"
proof -
  from assms(1) obtain d0 d1 where
    "convert_loop A reg ctx pre d = Inr d0"
    and a: "convert_arg A reg ctx t d0 = Inr d1"
    and l: "convert_loop A reg ctx post d1 = Inr d'"
    by (auto simp: convert_loop_append split: sum.splits)
  from convert_arg_Inr [OF a] assms(2) obtain a' x where
    r: "map_of reg (lower (first_eq_name t)) = Some a'"
       "convert_value A ctx (converter a') (first_eq_value t) = Inr x"
       "d1 = setitem (first_eq_name t) x d0"
    by auto
  from convert_loop_other_key [OF l assms(3)] r(3)
  have "map_of d' (first_eq_name t) = Some x" by (simp add: map_of_setitem)
  with r show ?thesis by blast
qed

lemma convert_loop_distinct:
  assumes "convert_loop A reg ctx ts d = Inr d'" and "distinct (map fst d)"
  shows "distinct (map fst d')"
  using assms
proof (induction ts arbitrary: d)
  case Nil
  then show ?case by simp
next
  case (Cons t ts)
  from Cons.prems(1) obtain d1 where
    a: "convert_arg A reg ctx t d = Inr d1" and l: "convert_loop A reg ctx ts d1 = Inr d'"
    by (auto split: sum.splits)
  from convert_arg_Inr [OF a] Cons.prems(2) have "distinct (map fst d1)"
    by (auto simp: distinct_setitem)
  with Cons.IH [OF l] show ?case .
qed

lemma fill_loop_distinct:
  "fill_loop reg d = Inr d' \<Longrightarrow> distinct (map fst d) \<Longrightarrow> distinct (map fst d')"
  by (induction reg d rule: fill_loop.induct) (auto simp: distinct_setitem split: if_splits)

lemma fill_loop_keeps:
  "fill_loop reg d = Inr d' \<Longrightarrow> map_of d k = Some x \<Longrightarrow> map_of d' k = Some x"
proof (induction reg arbitrary: d)
  case Nil
  then show ?case by simp
next
  case (Cons p reg)
  obtain name argument where p: "p = (name, argument)" by (cases p)
  from Cons.prems(1) consider
    (fill) "map_of d name = None"
      "fill_loop reg (setitem name (default argument) d) = Inr d'"
    | (keep) "fill_loop reg d = Inr d'"
    by (auto simp: p split: if_splits)
  then show ?case
  proof cases
    case fill
    with Cons.prems(2) have "map_of (setitem name (default argument) d) k = Some x"
      by (auto simp: map_of_setitem)
    with Cons.IH fill(2) show ?thesis by blast
  next
    case keep
    with Cons.IH Cons.prems(2) show ?thesis by blast
  qed
qed

lemma filter_key_distinct:
  "distinct (map fst d) \<Longrightarrow> map_of d k = Some x \<Longrightarrow> filter (\<lambda>e. fst e = k) d = [(k, x)]"
proof (induction d)
  case Nil
  then show ?case by simp
next
  case (Cons p d)
  show ?case
  proof (cases "fst p = k")
    case True
    with Cons.prems have "\<forall>e\<in>set d. fst e \<noteq> k" by (auto simp: image_iff)
    then have "filter (\<lambda>e. fst e = k) d = []" by (simp add: filter_empty_conv)
    with True Cons.prems(2) show ?thesis by (cases p) auto
  next
    case False
    with Cons show ?thesis by (cases p) auto
  qed
qed

lemma lower_turns: "lower ''turns'' = ''turns''"
  by (simp add: lower_simps)

lemma lower_mode: "lower ''mode'' = ''mode''"
  by (simp add: lower_simps)

lemmas eval_arg = convert_arg_def py_split_def convert_value_str lower_turns lower_mode

text \<open>
  C10. When a conversion succeeds and a name, written in one letter case, stands in
  several tokens, the result holds exactly one entry under that name, and its value is
  the converted value of the last of those tokens. The token \<open>tok\<close> is that last one:
  no token after it has its name.
\<close>

theorem repeated_name_last_value_wins:
  assumes "convert_tokens A reg ctx (pre @ tok # post) = Inr r"
    and "CHR ''='' \<in> set tok"
    and "\<forall>u\<in>set post. CHR ''='' \<in> set u \<longrightarrow> first_eq_name u \<noteq> first_eq_name tok"
  shows "\<exists>a x. map_of reg (lower (first_eq_name tok)) = Some a
           \<and> convert_value A ctx (converter a) (first_eq_value tok) = Inr x
           \<and> filter (\<lambda>e. fst e = first_eq_name tok) r = [(first_eq_name tok, x)]"
proof -
  from assms(1) obtain d where
    l: "convert_loop A reg ctx (pre @ tok # post) [] = Inr d" and f: "fill_loop reg d = Inr r"
    by (auto simp: convert_tokens_def split: sum.splits)
  from convert_loop_last_occurrence [OF l assms(2,3)] obtain a x where
    r: "map_of reg (lower (first_eq_name tok)) = Some a"
       "convert_value A ctx (converter a) (first_eq_value tok) = Inr x"
       "map_of d (first_eq_name tok) = Some x"
    by blast
  have "distinct (map fst d)" using convert_loop_distinct [OF l] by simp
  then have "distinct (map fst r)" by (rule fill_loop_distinct [OF f])
  moreover have "map_of r (first_eq_name tok) = Some x" by (rule fill_loop_keeps [OF f r(3)])
  ultimately have "filter (\<lambda>e. fst e = first_eq_name tok) r = [(first_eq_name tok, x)]"
    by (rule filter_key_distinct)
  with r(1,2) show ?thesis by blast
qed

theorem repeated_name_last_value_wins_witness:
  "convert_tokens (\<lambda>n. None) quiz_options () ([''turns=1''] @ ''turns=2'' # [''mode=hard''])
     = Inr [(''turns'', PyStr ''2''), (''mode'', PyStr ''hard'')]
   \<and> CHR ''='' \<in> set ''turns=2''
   \<and> first_eq_name ''mode=hard'' \<noteq> first_eq_name ''turns=2''
   \<and> filter (\<lambda>e. fst e = ''turns'') [(''turns'', PyStr ''2''), (''mode'', PyStr ''hard'')]
       = [(''turns'', PyStr ''2'')]"
proof -
  have h1: "convert_tokens (\<lambda>n. None) quiz_options ()
              ([''turns=1''] @ ''turns=2'' # [''mode=hard''])
     = Inr [(''turns'', PyStr ''2''), (''mode'', PyStr ''hard'')]"
    by (simp add: convert_tokens_def quiz_options_def eval_arg)
  have h2: "CHR ''='' \<in> set ''turns=2''" by simp
  have n: "first_eq_name ''turns=2'' = ''turns''" "first_eq_name ''mode=hard'' = ''mode''"
    by (simp_all add: first_eq_name_def)
  have h3: "\<forall>u\<in>set [''mode=hard''].
              CHR ''='' \<in> set u \<longrightarrow> first_eq_name u \<noteq> first_eq_name ''turns=2''"
    by (simp add: n)
  from repeated_name_last_value_wins [OF h1 h2 h3]
  have "filter (\<lambda>e. fst e = ''turns'') [(''turns'', PyStr ''2''), (''mode'', PyStr ''hard'')]
       = [(''turns'', PyStr ''2'')]"
    by (simp add: n)
  with h1 h2 n show ?thesis by simp
qed

subsection \<open>Order of the tokens\<close>

lemma convert_arg_isl:
  "isl (convert_arg A reg ctx t d) = isl (convert_arg A reg ctx t [])"
proof (cases "CHR ''='' \<in> set t")
  case True
  then show ?thesis by (simp add: convert_arg_token split: option.splits sum.splits)
next
  case False
  then show ?thesis by (simp add: convert_arg_skip)
qed

lemma convert_loop_isl:
  "isl (convert_loop A reg ctx ts d) \<longleftrightarrow> (\<exists>t\<in>set ts. isl (convert_arg A reg ctx t []))"
proof (induction ts arbitrary: d)
  case Nil
  then show ?case by simp
next
  case (Cons t ts)
  show ?case
  proof (cases "convert_arg A reg ctx t d")
    case (Inl e)
    then have "isl (convert_arg A reg ctx t [])"
      using convert_arg_isl [of A reg ctx t d] by simp
    with Inl show ?thesis by simp
  next
    case (Inr d1)
    then have "\<not> isl (convert_arg A reg ctx t [])"
      using convert_arg_isl [of A reg ctx t d] by simp
    with Inr Cons.IH [of d1] show ?thesis by simp
  qed
qed

lemma fill_loop_map_of:
  assumes "map_of d1 = map_of d2"
  shows "case (fill_loop reg d1, fill_loop reg d2) of
           (Inr r1, Inr r2) \<Rightarrow> map_of r1 = map_of r2
         | (Inl e1, Inl e2) \<Rightarrow> e1 = e2
         | _ \<Rightarrow> False"
  using assms
proof (induction reg arbitrary: d1 d2)
  case Nil
  then show ?case by simp
next
  case (Cons p reg)
  obtain name argument where p: "p = (name, argument)" by (cases p)
  have same: "map_of d1 name = map_of d2 name" using Cons.prems by simp
  have upd: "map_of (setitem name v d1) = map_of (setitem name v d2)" for v
    using Cons.prems by (simp add: map_of_setitem)
  show ?case
  proof (cases "map_of d2 name")
    case None
    with same Cons.IH [OF Cons.prems] Cons.IH [OF upd] show ?thesis by (simp add: p)
  next
    case (Some y)
    with same Cons.IH [OF Cons.prems] show ?thesis by (simp add: p)
  qed
qed

lemma distinct_names_after:
  assumes "distinct (map first_eq_name (filter (\<lambda>t. CHR ''='' \<in> set t) (pre @ t # post)))"
    and "CHR ''='' \<in> set t"
  shows "\<forall>u\<in>set post. CHR ''='' \<in> set u \<longrightarrow> first_eq_name u \<noteq> first_eq_name t"
  using assms by (force simp: image_iff)

text \<open>
  C5. Take tokens whose names, as written, are distinct, and which the loop consumes
  without error (every name is declared and every value converts). Then for every
  permutation of the tokens \<open>convert\<close> gives the same outcome: the same mapping
  (Python compares dicts by their items, not by insertion order), or the same
  \<open>MissingRequiredArgument\<close> when a required argument is not among them.
\<close>

theorem token_order_independent:
  assumes "mset ts' = mset ts"
    and "distinct (map first_eq_name (filter (\<lambda>t. CHR ''='' \<in> set t) ts))"
    and "convert_loop A reg ctx ts [] = Inr d"
  shows "case (convert_tokens A reg ctx ts, convert_tokens A reg ctx ts') of
           (Inr r, Inr r') \<Rightarrow> map_of r = map_of r'
         | (Inl e, Inl e') \<Rightarrow> e = e'
         | _ \<Rightarrow> False"
proof -
  have sets: "set ts' = set ts" using assms(1) by (rule mset_eq_setD)
  have "\<not> isl (convert_loop A reg ctx ts [])" using assms(3) by simp
  then have "\<not> isl (convert_loop A reg ctx ts' [])"
    by (simp add: convert_loop_isl sets)
  then obtain d' where l': "convert_loop A reg ctx ts' [] = Inr d'"
    by (cases "convert_loop A reg ctx ts' []") auto
  have "mset (map first_eq_name (filter (\<lambda>t. CHR ''='' \<in> set t) ts'))
      = mset (map first_eq_name (filter (\<lambda>t. CHR ''='' \<in> set t) ts))"
    using assms(1) by simp
  then have dist': "distinct (map first_eq_name (filter (\<lambda>t. CHR ''='' \<in> set t) ts'))"
    using assms(2) by (metis mset_eq_imp_distinct_iff)
  have "map_of d k = map_of d' k" for k
  proof (cases "\<exists>t\<in>set ts. CHR ''='' \<in> set t \<and> first_eq_name t = k")
    case True
    then obtain t where t: "t \<in> set ts" "CHR ''='' \<in> set t" "first_eq_name t = k" by blast
    from t(1) obtain pre post where ts: "ts = pre @ t # post" by (auto dest: split_list)
    from t(1) sets have "t \<in> set ts'" by simp
    then obtain pre' post' where ts': "ts' = pre' @ t # post'"
      by (auto dest: split_list)
    from convert_loop_last_occurrence
      [OF assms(3) [unfolded ts] t(2) distinct_names_after [OF assms(2) [unfolded ts] t(2)]]
    obtain a x where 1: "map_of reg (lower (first_eq_name t)) = Some a"
      "convert_value A ctx (converter a) (first_eq_value t) = Inr x"
      "map_of d (first_eq_name t) = Some x" by blast
    from convert_loop_last_occurrence
      [OF l' [unfolded ts'] t(2) distinct_names_after [OF dist' [unfolded ts'] t(2)]]
    obtain a' x' where 2: "map_of reg (lower (first_eq_name t)) = Some a'"
      "convert_value A ctx (converter a') (first_eq_value t) = Inr x'"
      "map_of d' (first_eq_name t) = Some x'" by blast
    from 1 2 have "x = x'" by simp
    with 1(3) 2(3) t(3) show ?thesis by simp
  next
    case False
    then have none: "\<forall>u\<in>set ts. CHR ''='' \<in> set u \<longrightarrow> first_eq_name u \<noteq> k" by blast
    then have none': "\<forall>u\<in>set ts'. CHR ''='' \<in> set u \<longrightarrow> first_eq_name u \<noteq> k"
      by (simp add: sets)
    from convert_loop_other_key [OF assms(3) none] convert_loop_other_key [OF l' none']
    show ?thesis by simp
  qed
  then have "map_of d = map_of d'" by (rule ext)
  from fill_loop_map_of [OF this, of reg] show ?thesis
    by (simp add: convert_tokens_def assms(3) l')
qed

theorem token_order_independent_witness:
  "mset [''mode=hard'', ''turns=2''] = mset [''turns=2'', ''mode=hard'']
   \<and> distinct (map first_eq_name (filter (\<lambda>t. CHR ''='' \<in> set t) [''turns=2'', ''mode=hard'']))
   \<and> convert_loop (\<lambda>n. None) quiz_options () [''turns=2'', ''mode=hard''] []
       = Inr [(''turns'', PyStr ''2''), (''mode'', PyStr ''hard'')]
   \<and> convert_tokens (\<lambda>n. None) quiz_options () [''turns=2'', ''mode=hard'']
       = Inr [(''turns'', PyStr ''2''), (''mode'', PyStr ''hard'')]
   \<and> convert_tokens (\<lambda>n. None) quiz_options () [''mode=hard'', ''turns=2'']
       = Inr [(''mode'', PyStr ''hard''), (''turns'', PyStr ''2'')]
   \<and> map_of [(''turns'', PyStr ''2''), (''mode'', PyStr ''hard'')]
       = map_of [(''mode'', PyStr ''hard''), (''turns'', PyStr ''2'')]"
proof -
  have h1: "mset [''mode=hard'', ''turns=2''] = mset [''turns=2'', ''mode=hard'']" by simp
  have h2: "distinct (map first_eq_name
              (filter (\<lambda>t. CHR ''='' \<in> set t) [''turns=2'', ''mode=hard'']))"
    by (simp add: first_eq_name_def)
  have h3: "convert_loop (\<lambda>n. None) quiz_options () [''turns=2'', ''mode=hard''] []
       = Inr [(''turns'', PyStr ''2''), (''mode'', PyStr ''hard'')]"
    by (simp add: quiz_options_def eval_arg)
  have a: "convert_tokens (\<lambda>n. None) quiz_options () [''turns=2'', ''mode=hard'']
       = Inr [(''turns'', PyStr ''2''), (''mode'', PyStr ''hard'')]"
    by (simp add: convert_tokens_def quiz_options_def eval_arg)
  have b: "convert_tokens (\<lambda>n. None) quiz_options () [''mode=hard'', ''turns=2'']
       = Inr [(''mode'', PyStr ''hard''), (''turns'', PyStr ''2'')]"
    by (simp add: convert_tokens_def quiz_options_def eval_arg)
  from token_order_independent [OF h1 h2 h3]
  have "map_of [(''turns'', PyStr ''2''), (''mode'', PyStr ''hard'')]
       = map_of [(''mode'', PyStr ''hard''), (''turns'', PyStr ''2'')]"
    by (simp only: a b prod.case sum.case)
  with h1 h2 h3 a b show ?thesis by blast
qed

subsection \<open>Exceptions of a converter\<close>

lemma convert_arg_named:
  assumes "CHR ''='' \<notin> set n"
  shows "convert_arg A reg ctx (n @ CHR ''='' # v) d =
     (case map_of reg (lower n) of
        None \<Rightarrow> Inl (UnknownArgumentError n)
      | Some a \<Rightarrow>
          (case convert_value A ctx (converter a) v of
             Inr x \<Rightarrow> Inr (setitem n x d)
           | Inl e \<Rightarrow> Inl (on_exception n v e)))"
proof -
  have "convert_arg A reg ctx (n @ CHR ''='' # v) d =
     (case map_of reg (lower (first_eq_name (n @ CHR ''='' # v))) of
        None \<Rightarrow> Inl (UnknownArgumentError (first_eq_name (n @ CHR ''='' # v)))
      | Some a \<Rightarrow>
          (case convert_value A ctx (converter a) (first_eq_value (n @ CHR ''='' # v)) of
             Inr x \<Rightarrow> Inr (setitem (first_eq_name (n @ CHR ''='' # v)) x d)
           | Inl e \<Rightarrow>
               Inl (on_exception (first_eq_name (n @ CHR ''='' # v))
                      (first_eq_value (n @ CHR ''='' # v)) e)))"
    by (rule convert_arg_token) simp
  then show ?thesis
    by (simp only: first_eq_name_Cons [OF assms] first_eq_value_Cons [OF assms])
qed

lemma invoke_raises:
  "invocation_raises ctx c v e \<Longrightarrow>
   \<exists>cause. invoke ctx c v = Inl (ConversionError SubjectConverter (Some cause))"
  by (auto simp: invocation_raises_def invoke_def call_plain_def
        split: shape.splits sum.splits option.splits)

lemma resolve_error: "resolve A c = Inl e \<Longrightarrow> \<exists>n. e = AttributeError n"
  by (auto simp: resolve_def split: option.splits if_splits)

text \<open>
  C4, as the code has it. For a declared name whose converter is not \<open>bool\<close>: an
  exception that the converter's code raises while it is invoked (lines 142 to 160)
  reaches the caller of \<open>convert\<close> as \<open>InvalidArgumentValueError(name, value)\<close>; an
  exception raised while the converter is resolved (lines 134 to 140, outside every
  \<open>try\<close> of \<open>_convert_value\<close>) reaches the caller as a \<open>ConversionError\<close> that
  carries it, through the handler of lines 184 to 185.
\<close>

theorem invocation_failure_is_invalid_argument_value:
  assumes "CHR ''='' \<notin> set name"
    and "map_of reg (lower name) = Some a"
    and "converter a = Object c"
  shows "(\<forall>c' e. resolve A c = Inr c' \<and> invocation_raises ctx c' v e \<longrightarrow>
            convert_arg A reg ctx (name @ ''='' @ v) d = Inl (InvalidArgumentValueError name v))
       \<and> (\<forall>e. resolve A c = Inl e \<longrightarrow>
            convert_arg A reg ctx (name @ ''='' @ v) d = Inl (ConversionError SubjectSelf (Some e)))"
proof -
  have arg: "convert_arg A reg ctx (name @ ''='' @ v) d =
      (case convert_value A ctx (Object c) v of
         Inr x \<Rightarrow> Inr (setitem name x d)
       | Inl e \<Rightarrow> Inl (on_exception name v e))"
    using assms by (simp add: convert_arg_named)
  have 1: "convert_arg A reg ctx (name @ ''='' @ v) d = Inl (InvalidArgumentValueError name v)"
    if "resolve A c = Inr c'" "invocation_raises ctx c' v e" for c' e
  proof -
    from invoke_raises [OF that(2)] obtain cause where
      "invoke ctx c' v = Inl (ConversionError SubjectConverter (Some cause))" by blast
    with that(1) show ?thesis unfolding arg by (simp add: convert_value_def on_exception_def)
  qed
  have 2: "convert_arg A reg ctx (name @ ''='' @ v) d = Inl (ConversionError SubjectSelf (Some e))"
    if "resolve A c = Inl e" for e
  proof -
    from resolve_error [OF that] obtain m where "e = AttributeError m" by blast
    with that show ?thesis unfolding arg by (simp add: convert_value_def on_exception_def)
  qed
  from 1 2 show ?thesis by blast
qed

theorem invocation_failure_is_invalid_argument_value_witness:
  "CHR ''='' \<notin> set ''size''
   \<and> convert_arg (\<lambda>n. None) [(''size'', OptionalArgument rejecting_function '''' PyNone)] ()
        (''size'' @ ''='' @ ''big'') []
       = Inl (InvalidArgumentValueError ''size'' ''big'')
   \<and> CHR ''='' \<notin> set ''embed''
   \<and> convert_arg (\<lambda>n. None) [(''embed'', OptionalArgument embed_type '''' PyNone)] ()
        (''embed'' @ ''='' @ ''x'') []
       = Inl (ConversionError SubjectSelf (Some (AttributeError ''EmbedConverter'')))"
proof -
  let ?A = "(\<lambda>n. None) :: unit adapters"
  let ?rej = "\<lparr>module_of = Some ''__main__'', name_of = Some ''reject'',
             shape_of = OtherObject (\<lambda>v. Inl (ValueError ''rejected''))\<rparr> :: unit pyobject"
  let ?emb = "\<lparr>module_of = Some ''discord.embeds'', name_of = Some ''Embed'',
             shape_of = OtherClass None (\<lambda>v. Inl (TypeError ''takes 1 positional argument''))\<rparr>
             :: unit pyobject"
  have n1: "CHR ''='' \<notin> set ''size''" by simp
  have m1: "map_of [(''size'', OptionalArgument rejecting_function '''' PyNone)] (lower ''size'')
            = Some (OptionalArgument (rejecting_function :: unit converter) '''' PyNone)"
    by (simp add: lower_simps)
  have c1: "converter (OptionalArgument (rejecting_function :: unit converter) '''' PyNone)
            = Object ?rej"
    by (simp add: rejecting_function_def)
  have r1: "resolve ?A ?rej = Inr ?rej" by (simp add: resolve_def)
  have i1: "invocation_raises () ?rej ''big'' (ValueError ''rejected'')"
    by (simp add: invocation_raises_def)
  have a: "convert_arg ?A [(''size'', OptionalArgument rejecting_function '''' PyNone)] ()
        (''size'' @ ''='' @ ''big'') [] = Inl (InvalidArgumentValueError ''size'' ''big'')"
    using invocation_failure_is_invalid_argument_value
      [OF n1 m1 c1, of ?A "()" "''big''" "[]"] r1 i1
    by blast
  have n2: "CHR ''='' \<notin> set ''embed''" by simp
  have m2: "map_of [(''embed'', OptionalArgument embed_type '''' PyNone)] (lower ''embed'')
            = Some (OptionalArgument (embed_type :: unit converter) '''' PyNone)"
    by (simp add: lower_simps)
  have c2: "converter (OptionalArgument (embed_type :: unit converter) '''' PyNone) = Object ?emb"
    by (simp add: embed_type_def)
  have r2: "resolve ?A ?emb = Inl (AttributeError ''EmbedConverter'')"
    by (simp add: resolve_def suffix_to_prefix)
  have b: "convert_arg ?A [(''embed'', OptionalArgument embed_type '''' PyNone)] ()
        (''embed'' @ ''='' @ ''x'') []
       = Inl (ConversionError SubjectSelf (Some (AttributeError ''EmbedConverter'')))"
    using invocation_failure_is_invalid_argument_value
      [OF n2 m2 c2, of ?A "()" "''x''" "[]"] r2
    by blast
  from n1 a n2 b show ?thesis by blast
qed

text \<open>
  C4 as stated fails: for an argument declared with \<open>discord.Embed\<close>, which has no
  adapter, the \<open>AttributeError\<close> of the resolution reaches the caller inside a bare
  \<open>ConversionError\<close>.
\<close>

theorem resolution_failure_is_conversion_error:
  "convert (\<lambda>n. None) [(''embed'', OptionalArgument embed_type '''' PyNone)] () (Some ''embed=x'')
     = Inl (ConversionError SubjectSelf (Some (AttributeError ''EmbedConverter'')))"
  by (simp add: convert_def shlex_simps convert_tokens_def convert_arg_def py_split_def
        lower_simps convert_value_def embed_type_def resolve_def suffix_to_prefix
        on_exception_def)

subsection \<open>Required arguments\<close>

lemma on_exception_not_missing: "on_exception n v e \<noteq> MissingRequiredArgument m"
  by (cases e) (simp_all add: on_exception_def)

lemma convert_arg_not_missing: "convert_arg A reg ctx t d \<noteq> Inl (MissingRequiredArgument m)"
proof (cases "CHR ''='' \<in> set t")
  case True
  then show ?thesis
    by (simp add: convert_arg_token on_exception_not_missing split: option.splits sum.splits)
next
  case False
  then show ?thesis by (simp add: convert_arg_skip)
qed

lemma convert_loop_not_missing:
  "convert_loop A reg ctx ts d \<noteq> Inl (MissingRequiredArgument m)"
proof (induction ts arbitrary: d)
  case Nil
  then show ?case by simp
next
  case (Cons t ts)
  then show ?case
    using convert_arg_not_missing [of A reg ctx t d m]
    by (cases "convert_arg A reg ctx t d") simp_all
qed

lemma convert_loop_keys:
  assumes "convert_loop A reg ctx ts d = Inr r"
  shows "map_of r k = None \<longleftrightarrow>
         map_of d k = None \<and> k \<notin> first_eq_name ` {t \<in> set ts. CHR ''='' \<in> set t}"
  using assms
proof (induction ts arbitrary: d)
  case Nil
  then show ?case by simp
next
  case (Cons t ts)
  from Cons.prems obtain d1 where
    a: "convert_arg A reg ctx t d = Inr d1" and l: "convert_loop A reg ctx ts d1 = Inr r"
    by (auto split: sum.splits)
  from convert_arg_Inr [OF a]
  have "map_of d1 k = None \<longleftrightarrow> map_of d k = None \<and> \<not> (CHR ''='' \<in> set t \<and> first_eq_name t = k)"
    by (auto simp: map_of_setitem split: if_splits)
  with Cons.IH [OF l] show ?case by auto
qed

lemma fill_loop_missing:
  assumes "distinct (map fst reg)"
    and "\<forall>(k, a)\<in>set reg. parameter_error k = None"
  shows "fill_loop reg d = Inl (MissingRequiredArgument n) \<longleftrightarrow>
         (\<exists>a. find (\<lambda>(k, a). is_RequiredArgument a \<and> map_of d k = None) reg = Some (n, a))"
  using assms
proof (induction reg arbitrary: d)
  case Nil
  then show ?case by simp
next
  case (Cons p reg)
  obtain name argument where p: "p = (name, argument)" by (cases p)
  from Cons.prems p have fresh: "name \<notin> fst ` set reg" and dist: "distinct (map fst reg)"
    and valid: "\<forall>(k, a)\<in>set reg. parameter_error k = None"
    and ok: "missing_required name = MissingRequiredArgument name"
    by (auto simp: missing_required_def)
  show ?case
  proof (cases "is_RequiredArgument argument \<and> map_of d name = None")
    case True
    then show ?thesis by (auto simp: p ok)
  next
    case False
    have same: "find (\<lambda>(k, a). is_RequiredArgument a \<and> map_of (setitem name x d) k = None) reg
              = find (\<lambda>(k, a). is_RequiredArgument a \<and> map_of d k = None) reg" for x
      using fresh by (intro find_cong) (auto simp: map_of_setitem image_iff)
    from False show ?thesis
      using Cons.IH [OF dist valid, of d]
        Cons.IH [OF dist valid, of "setitem name (default argument) d"]
      by (auto simp: p same)
  qed
qed

text \<open>
  C3, as the code has it. Take a registry whose names are valid parameter names and an
  input whose names are written in lower case, the form in which they are looked up.
  Then \<open>convert\<close> fails with \<open>MissingRequiredArgument(name)\<close> if and only if all
  tokens were consumed without error and \<open>name\<close> is the first declared argument, in
  the order of declaration, that is a \<open>RequiredArgument\<close> and is never supplied in
  the input. The default of the argument plays no part: lines 188 to 190 test the class
  and the presence before line 192 looks at the default.
\<close>

theorem missing_required_argument_iff:
  assumes "distinct (map fst reg)"
    and "\<forall>(k, a)\<in>set reg. parameter_error k = None"
    and "\<forall>t\<in>set toks. CHR ''='' \<in> set t \<longrightarrow> lower (first_eq_name t) = first_eq_name t"
  shows "convert_tokens A reg ctx toks = Inl (MissingRequiredArgument n) \<longleftrightarrow>
         (\<exists>converted. convert_loop A reg ctx toks [] = Inr converted) \<and>
         (\<exists>a. find (\<lambda>(k, a). is_RequiredArgument a \<and> k \<notin> set (supplied toks)) reg = Some (n, a))"
proof (cases "convert_loop A reg ctx toks []")
  case (Inl e)
  with convert_loop_not_missing [of A reg ctx toks "[]" n] show ?thesis
    by (simp add: convert_tokens_def)
next
  case (Inr converted)
  have names: "set (supplied toks) = first_eq_name ` {t \<in> set toks. CHR ''='' \<in> set t}"
    using assms(3) by (auto simp: supplied_def image_iff)
  have "find (\<lambda>(k, a). is_RequiredArgument a \<and> map_of converted k = None) reg
      = find (\<lambda>(k, a). is_RequiredArgument a \<and> k \<notin> set (supplied toks)) reg"
    by (intro find_cong) (auto simp: convert_loop_keys [OF Inr] names)
  with fill_loop_missing [OF assms(1,2), of converted n] Inr show ?thesis
    by (simp add: convert_tokens_def)
qed

theorem missing_required_argument_iff_witness:
  "distinct (map fst quiz_options)
   \<and> parameter_error ''turns'' = None \<and> parameter_error ''mode'' = None
   \<and> lower (first_eq_name ''mode=hard'') = first_eq_name ''mode=hard''
   \<and> supplied [''mode=hard''] = [''mode'']
   \<and> convert_loop (\<lambda>n. None) quiz_options () [''mode=hard''] [] = Inr [(''mode'', PyStr ''hard'')]
   \<and> convert_tokens (\<lambda>n. None) quiz_options () [''mode=hard'']
       = Inl (MissingRequiredArgument ''turns'')"
proof -
  have h1: "distinct (map fst quiz_options)" by (simp add: quiz_options_def)
  have p: "parameter_error ''turns'' = None" "parameter_error ''mode'' = None"
    by (simp_all add: parameter_simps)
  then have h2: "\<forall>(k, a)\<in>set quiz_options. parameter_error k = None"
    by (simp add: quiz_options_def)
  have n: "first_eq_name ''mode=hard'' = ''mode''" by (simp add: first_eq_name_def)
  have c: "lower (first_eq_name ''mode=hard'') = first_eq_name ''mode=hard''"
    by (simp add: n lower_mode)
  then have h3: "\<forall>t\<in>set [''mode=hard''].
      CHR ''='' \<in> set t \<longrightarrow> lower (first_eq_name t) = first_eq_name t"
    by simp
  have s: "supplied [''mode=hard''] = [''mode'']" by (simp add: supplied_def n lower_mode)
  have l: "convert_loop (\<lambda>n. None) quiz_options () [''mode=hard''] []
             = Inr [(''mode'', PyStr ''hard'')]"
    by (simp add: quiz_options_def eval_arg)
  have f: "find (\<lambda>(k, a). is_RequiredArgument a \<and> k \<notin> set (supplied [''mode=hard'']))
             quiz_options = Some (''turns'', RequiredArgument str_type '''' PyNone)"
    by (simp add: quiz_options_def s)
  have "convert_tokens (\<lambda>n. None) quiz_options () [''mode=hard'']
       = Inl (MissingRequiredArgument ''turns'')"
    using missing_required_argument_iff
      [OF h1 h2 h3, of "\<lambda>n. None" "()" "''turns''"] l f
    by simp
  with h1 p c s l show ?thesis by simp
qed

text \<open>
  C3 as stated fails: a required argument that declares the default 10 and is absent
  from the input is reported missing all the same; and of two required arguments that
  are both absent, only the first is reported.
\<close>

theorem required_with_default_still_missing:
  "convert (\<lambda>n. None) [(''turns'', RequiredArgument str_type '''' (PyInt 10))] () (Some [])
     = Inl (MissingRequiredArgument ''turns'')
   \<and> convert (\<lambda>n. None)
        [(''turns'', RequiredArgument str_type '''' PyNone),
         (''images'', RequiredArgument str_type '''' PyNone)] () (Some [])
     = Inl (MissingRequiredArgument ''turns'')
   \<and> convert (\<lambda>n. None)
        [(''turns'', RequiredArgument str_type '''' PyNone),
         (''images'', RequiredArgument str_type '''' PyNone)] () (Some [])
     \<noteq> Inl (MissingRequiredArgument ''images'')"
  by (simp add: convert_def shlex_simps convert_tokens_def missing_required_def parameter_simps)

text \<open>
  Two behaviours stay outside the statement above. The value of \<open>Name=5\<close> is stored
  under \<open>Name\<close> (line 181) while line 188 looks for the declared key \<open>name\<close>: a
  required argument supplied in another letter case is converted and then reported
  missing. And for a declared name that is no valid parameter name, the constructor of
  line 189 raises in the place of \<open>MissingRequiredArgument\<close>.
\<close>

lemma required_name_in_other_case_is_missing:
  "convert (\<lambda>n. None) [(''name'', RequiredArgument str_type '''' PyNone)] () (Some ''Name=5'')
     = Inl (MissingRequiredArgument ''name'')"
  by (simp add: convert_def shlex_simps convert_tokens_def convert_arg_def py_split_def
        lower_simps convert_value_str missing_required_def parameter_simps)

lemma required_keyword_name_raises_value_error:
  "convert (\<lambda>n. None) [(''class'', RequiredArgument str_type '''' PyNone)] () (Some [])
     = Inl (ValueError ''is not a valid parameter name'')"
  by (simp add: convert_def shlex_simps convert_tokens_def missing_required_def parameter_simps)

text \<open>Case folding beyond the ASCII letters.\<close>

lemma lower_latin1: "lower [CHR 0xC4] = [CHR 0xE4]" "lower [CHR 0xD7] = [CHR 0xD7]"
  by (simp_all add: lower_simps)

subsection \<open>Letter case of a name\<close>
















text \<open>
  Outside the statement above: for a required argument, or one with a default, lines
  188 and 192 look for the declared key while line 181 stored the written one, so the
  argument is reported missing, or its default is added beside the converted value.
\<close>

lemma defaulted_name_in_other_case_is_filled:
  "convert (\<lambda>n. None) [(''mode'', OptionalArgument str_type '''' (PyStr ''easy''))] ()
       (Some ''Mode=hard'')
     = Inr [(''Mode'', PyStr ''hard''), (''mode'', PyStr ''easy'')]"
  by (simp add: convert_def shlex_simps convert_tokens_def convert_arg_def py_split_def
        lower_simps convert_value_str)

end
